theory Spec2Isabelle
  imports Complex_Main "HOL-Library.Sublist"
begin

section \<open>The music queue of main.py\<close>

text \<open>
  The bot keeps one global dictionary \<open>music_queues\<close> from guild ids to deques of song
  dictionaries, and drives one discord.py voice client per guild. Every command handler
  and the completion callback \<open>after_playing\<close> is modelled as a function on an explicit
  world. A handler as a whole is one step; \<open>play\<close> and \<open>play_next_song\<close> are given in
  parts as well, cut where the coroutine waits for the resolver, so that two handlers
  that overlap there can be composed. What the handlers send outwards (messages, calls
  of the resolver, calls on the voice client) is appended to a trace, in the order of
  the source.

  What is outside main.py is taken as follows.
  \<^item> \<open>ytdl.extract_info\<close> is a parameter: a function from its argument (a string, or
    Python's \<open>None\<close>) to the extracted data, \<open>None\<close> where the call raises.
  \<^item> \<open>discord.opus.is_loaded()\<close>, the success of \<open>voice_channel.connect()\<close> and the
    success of \<open>discord.FFmpegPCMAudio(filename)\<close> are parameters.
  \<^item> The interpreter's stack is a parameter: for each nested activation of
    \<open>play_next_song\<close> it says whether, and where, the activation hits RecursionError.
  \<^item> The voice client follows the documentation of discord.py: \<open>play\<close> raises
    ClientException while a stream is playing, \<open>stop\<close> ends the stream and drops the
    source, a stream that runs out stops playing and keeps its source, \<open>disconnect\<close>
    removes the guild's voice client. Sending a message is taken to succeed.
\<close>

subsection \<open>Data\<close>

type_synonym guild = nat
type_synonym channel = nat

text \<open>
  A key of a Python dictionary: absent, or present with a value, which may be Python's
  \<open>None\<close>. \<open>dict_get k d\<close> is \<open>data.get(key, d)\<close>: the default only replaces an absent
  key.
\<close>

datatype 'a entry = Absent | Present "'a option"

definition dict_get :: "'a entry \<Rightarrow> 'a option \<Rightarrow> 'a option" where
  "dict_get k d = (case k of Absent \<Rightarrow> d | Present v \<Rightarrow> v)"

text \<open>
  The dictionary appended to the deque in \<open>play\<close> (keys url, title, duration,
  requester); the first three come from \<open>data.get\<close> and may be \<open>None\<close>.
\<close>

record song =
  song_url :: "string option"
  song_title :: "string option"
  song_duration :: "int option"
  song_requester :: string

text \<open>
  The dictionary returned by \<open>ytdl.extract_info\<close>: the keys the source reads; a search
  result carries the key \<open>entries\<close>, a list of such dictionaries.
\<close>

record info =
  info_title :: "string entry"
  info_duration :: "int entry"
  info_webpage_url :: "string entry"
  info_url :: "string entry"

datatype ytdata = Single info | Entries "info list"

text \<open>
  \<open>YTDLSource\<close>: a \<open>PCMVolumeTransformer\<close> with the title and url of its data. The
  volume is a Python float, kept here as the rational number that the float is.
\<close>

record player =
  player_title :: "string option"
  player_url :: "string option"
  player_volume :: rat

record voice_client =
  vc_channel :: channel
  vc_playing :: bool
  vc_source :: "player option"

text \<open>
  Where a nested activation of \<open>play_next_song\<close> runs out of stack: before it does
  anything (also: when it is called), inside \<open>from_url\<close>, or in the call of
  \<open>voice_client.play\<close>.
\<close>

datatype overflow = AtEntry | AtResolve | AtPlay

record env =
  extract_info :: "string option \<Rightarrow> ytdata option"
  ffmpeg_starts :: "string option \<Rightarrow> bool"
  opus_is_loaded :: bool
  can_connect :: "channel \<Rightarrow> bool"
  stack_overflow :: "nat \<Rightarrow> overflow option"

text \<open>
  The messages of the handlers, one constructor for each text of the source, with the
  value the text carries (a title may be \<open>None\<close>).
\<close>

datatype reply =
    MustBeInVoice
  | Searching string
  | NowPlaying "string option"
  | AddedToQueue "string option"
  | CannotProcess string
  | Stopped
  | NotConnected
  | Skipped
  | NothingPlaying
  | VolumeRange
  | VolumeSet int

text \<open>
  What a handler does to the outside: \<open>interaction.response.send_message\<close>,
  \<open>interaction.edit_original_response\<close>, a request to the resolver with its argument
  (\<open>ytdl.extract_info\<close> in \<open>play\<close>, \<open>YTDLSource.from_url\<close> in \<open>play_next_song\<close>), and
  the calls on the voice channel and the voice client.
\<close>

datatype effect =
    SendMessage reply
  | EditResponse reply
  | ExtractInfo "string option"
  | Connect guild channel
  | MoveTo guild channel
  | VcStop guild
  | Disconnect guild
  | VcPlay guild player

record world =
  music_queues :: "guild \<rightharpoonup> song list"
  voice :: "guild \<rightharpoonup> voice_client"
  trace :: "effect list"

definition emit :: "effect \<Rightarrow> world \<Rightarrow> world" where
  "emit e s = s\<lparr>trace := trace s @ [e]\<rparr>"

text \<open>What the guild has pending: the deque of the guild, empty when the guild has no entry.\<close>

definition pending :: "guild \<Rightarrow> world \<Rightarrow> song list" where
  "pending g s = (case music_queues s g of None \<Rightarrow> [] | Some q \<Rightarrow> q)"

text \<open>
  The track that is playing, as \<open>nowplaying\<close> reads it: the source of the voice client
  while \<open>is_playing()\<close> holds.
\<close>

definition current :: "guild \<Rightarrow> world \<Rightarrow> player option" where
  "current g s =
     (case voice s g of
        None \<Rightarrow> None
      | Some vc \<Rightarrow> if vc_playing vc then vc_source vc else None)"

subsection \<open>The resolver\<close>

text \<open>\<open>if 'entries' in data: data = data['entries'][0]\<close>; an empty list raises IndexError.\<close>

fun first_entry :: "ytdata \<Rightarrow> info option" where
  "first_entry (Single d) = Some d"
| "first_entry (Entries []) = None"
| "first_entry (Entries (d # ds)) = Some d"

text \<open>
  \<open>YTDLSource.from_url(url, stream=True)\<close>: \<open>data['url']\<close> raises KeyError when the key
  is absent; the audio source is built from the value of the key; the constructor is
  called without a volume, so the default 0.5 applies. \<open>None\<close> stands for any
  exception.
\<close>

definition from_url :: "env \<Rightarrow> string option \<Rightarrow> player option" where
  "from_url e u =
     (case extract_info e u of
        None \<Rightarrow> None
      | Some data \<Rightarrow>
          (case first_entry data of
             None \<Rightarrow> None
           | Some d \<Rightarrow>
               (case info_url d of
                  Absent \<Rightarrow> None
                | Present filename \<Rightarrow>
                    if ffmpeg_starts e filename
                    then Some \<lparr>player_title = dict_get (info_title d) None,
                               player_url = dict_get (info_url d) None,
                               player_volume = 1 / 2\<rparr>
                    else None)))"

subsection \<open>The voice client\<close>

text \<open>\<open>voice_client.play(player, after=after_playing)\<close>; where it raises, nothing changes.\<close>

definition vc_play :: "guild \<Rightarrow> player \<Rightarrow> world \<Rightarrow> world" where
  "vc_play g p s =
     (case voice s g of
        None \<Rightarrow> s
      | Some vc \<Rightarrow>
          if vc_playing vc then s
          else emit (VcPlay g p)
                 (s\<lparr>voice := (voice s)(g \<mapsto> vc\<lparr>vc_playing := True, vc_source := Some p\<rparr>)\<rparr>))"

text \<open>\<open>voice_client.stop()\<close>.\<close>

definition vc_stop :: "guild \<Rightarrow> world \<Rightarrow> world" where
  "vc_stop g s =
     (case voice s g of
        None \<Rightarrow> s
      | Some vc \<Rightarrow>
          emit (VcStop g)
            (s\<lparr>voice := (voice s)(g \<mapsto> vc\<lparr>vc_playing := False, vc_source := None\<rparr>)\<rparr>))"

text \<open>\<open>await voice_client.disconnect()\<close>.\<close>

definition vc_disconnect :: "guild \<Rightarrow> world \<Rightarrow> world" where
  "vc_disconnect g s = emit (Disconnect g) (s\<lparr>voice := (voice s)(g := None)\<rparr>)"

text \<open>The stream of the guild runs out: the player thread ends, the source stays.\<close>

definition stream_ended :: "guild \<Rightarrow> world \<Rightarrow> world" where
  "stream_ended g s =
     (case voice s g of
        None \<Rightarrow> s
      | Some vc \<Rightarrow> s\<lparr>voice := (voice s)(g \<mapsto> vc\<lparr>vc_playing := False\<rparr>)\<rparr>)"

subsection \<open>play_next_song and its callback\<close>

text \<open>
  \<open>overflow_at e depth\<close>: what the stack does to the activation that \<open>depth\<close>
  activations of \<open>play_next_song\<close> enclose. The first activation is called by a handler
  or by the callback and has the stack it needs.
\<close>

definition overflow_at :: "env \<Rightarrow> nat \<Rightarrow> overflow option" where
  "overflow_at e depth = (if depth = 0 then None else stack_overflow e depth)"

text \<open>
  The two early returns come before \<open>popleft\<close>. After it, a failed \<open>from_url\<close> recurses
  while the deque is not empty, one activation deeper; an unloaded opus returns with
  the song already popped; an exception of \<open>voice_client.play\<close> is caught by the outer
  handler, also with the song popped.

  RecursionError is an \<open>Exception\<close>. Raised before the activation has done anything, it
  is swallowed by an outer handler of this or of an enclosing activation, each of which
  then returns: nothing changes. Raised inside \<open>from_url\<close>, the inner handler takes it
  for a failed resolution. Raised in the call of \<open>voice_client.play\<close>, the outer
  handler swallows it and the popped song is not played.
\<close>

function play_next_song_from :: "env \<Rightarrow> nat \<Rightarrow> guild \<Rightarrow> world \<Rightarrow> world" where
  "play_next_song_from e depth g s =
     (if overflow_at e depth = Some AtEntry then s
      else
        (case music_queues s g of
           None \<Rightarrow> s
         | Some [] \<Rightarrow> s
         | Some (next_song # rest) \<Rightarrow>
             (case voice s g of
                None \<Rightarrow> s
              | Some voice_client \<Rightarrow>
                  (case (if overflow_at e depth = Some AtResolve then None
                         else from_url e (song_url next_song)) of
                     None \<Rightarrow>
                       (if rest \<noteq> []
                        then play_next_song_from e (Suc depth) g
                               (emit (ExtractInfo (song_url next_song))
                                  (s\<lparr>music_queues := (music_queues s)(g \<mapsto> rest)\<rparr>))
                        else emit (ExtractInfo (song_url next_song))
                               (s\<lparr>music_queues := (music_queues s)(g \<mapsto> rest)\<rparr>))
                   | Some p \<Rightarrow>
                       (if \<not> opus_is_loaded e \<or> overflow_at e depth = Some AtPlay
                        then emit (ExtractInfo (song_url next_song))
                               (s\<lparr>music_queues := (music_queues s)(g \<mapsto> rest)\<rparr>)
                        else vc_play g p
                               (emit (ExtractInfo (song_url next_song))
                                  (s\<lparr>music_queues := (music_queues s)(g \<mapsto> rest)\<rparr>)))))))"
  by pat_completeness auto
termination
  by (relation "measure (\<lambda>(e, depth, g, s). length (pending g s))")
     (auto simp: pending_def emit_def)

declare play_next_song_from.simps [simp del]

text \<open>\<open>play_next_song(guild)\<close> as a handler or the callback calls it.\<close>

definition play_next_song :: "env \<Rightarrow> guild \<Rightarrow> world \<Rightarrow> world" where
  "play_next_song e g s = play_next_song_from e 0 g s"

text \<open>
  The same activation in two parts. The first runs up to \<open>await YTDLSource.from_url\<close>:
  it returns the popped song and the state in which the coroutine waits, or nothing
  when it returned before \<open>popleft\<close>. The second runs from the answer of the resolver to
  the end, in the state the world has by then; \<open>voice_client\<close> is the client of the
  guild, and \<open>if music_queues[guild.id]\<close> reads the deque as it is then.
\<close>

definition play_next_song_pop :: "guild \<Rightarrow> world \<Rightarrow> (song \<times> world) option" where
  "play_next_song_pop g s =
     (case music_queues s g of
        None \<Rightarrow> None
      | Some [] \<Rightarrow> None
      | Some (next_song # rest) \<Rightarrow>
          (case voice s g of
             None \<Rightarrow> None
           | Some voice_client \<Rightarrow>
               Some (next_song,
                     emit (ExtractInfo (song_url next_song))
                       (s\<lparr>music_queues := (music_queues s)(g \<mapsto> rest)\<rparr>))))"

definition play_next_song_resume :: "env \<Rightarrow> guild \<Rightarrow> song \<Rightarrow> world \<Rightarrow> world" where
  "play_next_song_resume e g next_song s =
     (case from_url e (song_url next_song) of
        None \<Rightarrow> if pending g s \<noteq> [] then play_next_song_from e (Suc 0) g s else s
      | Some p \<Rightarrow> if \<not> opus_is_loaded e then s else vc_play g p s)"

text \<open>
  \<open>after_playing(error)\<close> logs the error or the finished title and then runs
  \<open>play_next_song(guild)\<close> in either case.
\<close>

definition after_playing :: "env \<Rightarrow> guild \<Rightarrow> string option \<Rightarrow> world \<Rightarrow> world" where
  "after_playing e g error s = play_next_song e g s"

text \<open>A stream that runs out by itself: the player ends, then calls its \<open>after\<close>.\<close>

definition natural_finish :: "env \<Rightarrow> guild \<Rightarrow> world \<Rightarrow> world" where
  "natural_finish e g s = after_playing e g None (stream_ended g s)"

subsection \<open>The commands\<close>

definition starts_with :: "string \<Rightarrow> string \<Rightarrow> bool" where
  "starts_with p q = (take (length p) q = p)"

text \<open>\<open>query.startswith(('http://', 'https://', 'www.'))\<close> decides the string that is resolved.\<close>

definition search_query :: "string \<Rightarrow> string" where
  "search_query query =
     (if starts_with ''http://'' query \<or> starts_with ''https://'' query
         \<or> starts_with ''www.'' query
      then query else ''ytsearch:'' @ query)"

text \<open>
  The dictionary that \<open>play\<close> appends, from the extracted data:
  \<open>data.get('title', 'Unknown')\<close>, \<open>data.get('duration', 0)\<close> and
  \<open>data.get('webpage_url', data.get('url', query))\<close>.
\<close>

definition song_of :: "info \<Rightarrow> string \<Rightarrow> string \<Rightarrow> song" where
  "song_of d query requester =
     \<lparr>song_url = dict_get (info_webpage_url d) (dict_get (info_url d) (Some query)),
      song_title = dict_get (info_title d) (Some ''Unknown''),
      song_duration = dict_get (info_duration d) (Some 0),
      song_requester = requester\<rparr>"

text \<open>\<open>if guild_id not in music_queues: music_queues[guild_id] = deque()\<close>.\<close>

definition init_queue :: "guild \<Rightarrow> world \<Rightarrow> world" where
  "init_queue g s =
     (case music_queues s g of
        None \<Rightarrow> s\<lparr>music_queues := (music_queues s)(g \<mapsto> [])\<rparr>
      | Some q \<Rightarrow> s)"

definition append_song :: "guild \<Rightarrow> song \<Rightarrow> world \<Rightarrow> world" where
  "append_song g x s = s\<lparr>music_queues := (music_queues s)(g \<mapsto> pending g s @ [x])\<rparr>"

text \<open>
  The tail of \<open>play\<close>, once the voice client is there: start the song when nothing is
  playing, and edit the first response.
\<close>

definition start_or_queue :: "env \<Rightarrow> guild \<Rightarrow> string option \<Rightarrow> world \<Rightarrow> world" where
  "start_or_queue e g title s =
     (case voice s g of
        None \<Rightarrow> s
      | Some vc \<Rightarrow>
          if \<not> vc_playing vc
          then emit (EditResponse (NowPlaying title)) (play_next_song e g s)
          else emit (EditResponse (AddedToQueue title)) s)"

text \<open>
  The command \<open>play\<close>. \<open>user_voice\<close> is the channel of \<open>interaction.user.voice\<close>. Every
  exception inside the inner \<open>try\<close> ends in the edit of the response to the error text.
\<close>

definition play :: "env \<Rightarrow> guild \<Rightarrow> string \<Rightarrow> channel option \<Rightarrow> string \<Rightarrow> world \<Rightarrow> world" where
  "play e g requester user_voice query s =
     (case user_voice of
        None \<Rightarrow> emit (SendMessage MustBeInVoice) s
      | Some voice_channel \<Rightarrow>
          (let s1 = emit (ExtractInfo (Some (search_query query)))
                      (emit (SendMessage (Searching query)) (init_queue g s))
           in case extract_info e (Some (search_query query)) of
                None \<Rightarrow> emit (EditResponse (CannotProcess query)) s1
              | Some data \<Rightarrow>
                  (case first_entry data of
                     None \<Rightarrow> emit (EditResponse (CannotProcess query)) s1
                   | Some d \<Rightarrow>
                       (let x = song_of d query requester;
                            s2 = append_song g x s1
                        in case voice s2 g of
                             None \<Rightarrow>
                               if can_connect e voice_channel
                               then start_or_queue e g (song_title x)
                                      (emit (Connect g voice_channel)
                                         (s2\<lparr>voice := (voice s2)(g \<mapsto>
                                                \<lparr>vc_channel = voice_channel, vc_playing = False,
                                                 vc_source = None\<rparr>)\<rparr>))
                               else emit (EditResponse (CannotProcess query)) s2
                           | Some vc \<Rightarrow>
                               if vc_channel vc \<noteq> voice_channel
                               then start_or_queue e g (song_title x)
                                      (emit (MoveTo g voice_channel)
                                         (s2\<lparr>voice := (voice s2)(g \<mapsto>
                                                vc\<lparr>vc_channel := voice_channel\<rparr>)\<rparr>))
                               else start_or_queue e g (song_title x) s2))))"


text \<open>
  \<open>play\<close> up to the test \<open>if not voice_client.is_playing()\<close>: the handler has ended
  (\<open>Inl\<close>, with its final state), or it has appended the song and has a voice client
  (\<open>Inr\<close>, with the title and the state).
\<close>

definition play_enqueue ::
  "env \<Rightarrow> guild \<Rightarrow> string \<Rightarrow> channel \<Rightarrow> string \<Rightarrow> world \<Rightarrow> world + (string option \<times> world)" where
  "play_enqueue e g requester voice_channel query s =
     (let s1 = emit (ExtractInfo (Some (search_query query)))
                 (emit (SendMessage (Searching query)) (init_queue g s))
      in case extract_info e (Some (search_query query)) of
           None \<Rightarrow> Inl (emit (EditResponse (CannotProcess query)) s1)
         | Some data \<Rightarrow>
             (case first_entry data of
                None \<Rightarrow> Inl (emit (EditResponse (CannotProcess query)) s1)
              | Some d \<Rightarrow>
                  (let x = song_of d query requester;
                       s2 = append_song g x s1
                   in case voice s2 g of
                        None \<Rightarrow>
                          if can_connect e voice_channel
                          then Inr (song_title x,
                                 emit (Connect g voice_channel)
                                   (s2\<lparr>voice := (voice s2)(g \<mapsto>
                                          \<lparr>vc_channel = voice_channel, vc_playing = False,
                                           vc_source = None\<rparr>)\<rparr>))
                          else Inl (emit (EditResponse (CannotProcess query)) s2)
                      | Some vc \<Rightarrow>
                          if vc_channel vc \<noteq> voice_channel
                          then Inr (song_title x,
                                 emit (MoveTo g voice_channel)
                                   (s2\<lparr>voice := (voice s2)(g \<mapsto>
                                          vc\<lparr>vc_channel := voice_channel\<rparr>)\<rparr>))
                          else Inr (song_title x, s2))))"

text \<open>The command \<open>stop\<close>.\<close>

definition stop :: "guild \<Rightarrow> world \<Rightarrow> world" where
  "stop g s =
     (case voice s g of
        Some vc \<Rightarrow>
          emit (SendMessage Stopped)
            (vc_disconnect g
               (vc_stop g
                  (case music_queues s g of
                     None \<Rightarrow> s
                   | Some q \<Rightarrow> s\<lparr>music_queues := (music_queues s)(g \<mapsto> [])\<rparr>)))
      | None \<Rightarrow> emit (SendMessage NotConnected) s)"


text \<open>The command \<open>skip\<close>.\<close>

definition skip :: "guild \<Rightarrow> world \<Rightarrow> world" where
  "skip g s =
     (case voice s g of
        None \<Rightarrow> emit (SendMessage NothingPlaying) s
      | Some vc \<Rightarrow>
          if vc_playing vc then emit (SendMessage Skipped) (vc_stop g s)
          else emit (SendMessage NothingPlaying) s)"

text \<open>
  Python's \<open>a / b\<close> on integers with \<open>0 \<le> a \<le> b\<close> and \<open>0 < b\<close>: the double nearest to
  the quotient, ties to the even mantissa. \<open>norm_shift a b\<close> is the number of doublings
  that bring \<open>a\<close> up to \<open>b\<close>, so that the scaled quotient has 53 bits.
\<close>

function norm_shift :: "nat \<Rightarrow> nat \<Rightarrow> nat" where
  "norm_shift a b = (if a = 0 \<or> b \<le> a then 0 else Suc (norm_shift (2 * a) b))"
  by pat_completeness auto
termination
  by (relation "measure (\<lambda>(a, b). b - a)") auto

declare norm_shift.simps [simp del]

definition round_half_even :: "nat \<Rightarrow> nat \<Rightarrow> nat" where
  "round_half_even p q =
     (let d = p div q; r = p mod q
      in if 2 * r < q then d
         else if q < 2 * r then d + 1
         else if even d then d else d + 1)"

definition float_quotient :: "nat \<Rightarrow> nat \<Rightarrow> rat" where
  "float_quotient a b =
     (let k = 52 + norm_shift a b
      in of_nat (round_half_even (a * 2 ^ k) b) / 2 ^ k)"

text \<open>The command \<open>volume\<close>: \<open>voice_client.source.volume = volume / 100\<close>.\<close>

definition volume :: "guild \<Rightarrow> int \<Rightarrow> world \<Rightarrow> world" where
  "volume g v s =
     (if v < 0 \<or> v > 100 then emit (SendMessage VolumeRange) s
      else
        (case voice s g of
           None \<Rightarrow> emit (SendMessage NothingPlaying) s
         | Some vc \<Rightarrow>
             (case vc_source vc of
                None \<Rightarrow> emit (SendMessage NothingPlaying) s
              | Some p \<Rightarrow>
                  emit (SendMessage (VolumeSet v))
                    (s\<lparr>voice := (voice s)(g \<mapsto>
                          vc\<lparr>vc_source :=
                               Some (p\<lparr>player_volume := float_quotient (nat v) 100\<rparr>)\<rparr>)\<rparr>))))"

text \<open>The event \<open>on_guild_remove\<close>.\<close>

definition on_guild_remove :: "guild \<Rightarrow> world \<Rightarrow> world" where
  "on_guild_remove g s =
     (case music_queues s g of
        None \<Rightarrow> s
      | Some q \<Rightarrow> s\<lparr>music_queues := (music_queues s)(g := None)\<rparr>)"

subsection \<open>Observations\<close>

text \<open>\<open>voice_client and voice_client.is_playing()\<close>, the test of \<open>skip\<close> and \<open>nowplaying\<close>.\<close>

definition is_playing :: "guild \<Rightarrow> world \<Rightarrow> bool" where
  "is_playing g s = (case voice s g of None \<Rightarrow> False | Some vc \<Rightarrow> vc_playing vc)"

text \<open>The players handed to \<open>voice_client.play\<close> in the guild, in the order of the calls.\<close>

fun started_of :: "guild \<Rightarrow> effect \<Rightarrow> player list" where
  "started_of g (VcPlay g' p) = (if g' = g then [p] else [])"
| "started_of g _ = []"

definition started :: "guild \<Rightarrow> world \<Rightarrow> player list" where
  "started g s = concat (map (started_of g) (trace s))"

text \<open>The number of calls of the resolver so far.\<close>

fun is_attempt :: "effect \<Rightarrow> bool" where
  "is_attempt (ExtractInfo u) = True"
| "is_attempt _ = False"

definition attempts :: "world \<Rightarrow> nat" where
  "attempts s = length (filter is_attempt (trace s))"

subsection \<open>Runs of enqueues and finished streams\<close>

text \<open>
  A run without skip and stop in which every handler and every callback has ended
  before the next event arrives: a user in channel \<open>ch\<close> enqueues a query, or the stream
  that is playing runs out (which can only happen while one is playing).
\<close>

datatype event = Enqueue string | Finished

definition step :: "env \<Rightarrow> guild \<Rightarrow> string \<Rightarrow> channel \<Rightarrow> event \<Rightarrow> world \<Rightarrow> world" where
  "step e g u ch ev s =
     (case ev of
        Enqueue q \<Rightarrow> play e g u (Some ch) q s
      | Finished \<Rightarrow> if is_playing g s then natural_finish e g s else s)"

fun run :: "env \<Rightarrow> guild \<Rightarrow> string \<Rightarrow> channel \<Rightarrow> event list \<Rightarrow> world \<Rightarrow> world" where
  "run e g u ch [] s = s"
| "run e g u ch (ev # evs) s = run e g u ch evs (step e g u ch ev s)"

fun queries :: "event list \<Rightarrow> string list" where
  "queries [] = []"
| "queries (Enqueue q # evs) = q # queries evs"
| "queries (Finished # evs) = queries evs"

text \<open>The song that \<open>play\<close> appends for a query, and the player that song resolves to.\<close>

definition enqueued_song :: "env \<Rightarrow> string \<Rightarrow> string \<Rightarrow> song option" where
  "enqueued_song e u q =
     (case extract_info e (Some (search_query q)) of
        None \<Rightarrow> None
      | Some data \<Rightarrow> (case first_entry data of None \<Rightarrow> None | Some d \<Rightarrow> Some (song_of d q u)))"

definition player_of :: "env \<Rightarrow> string \<Rightarrow> string \<Rightarrow> player option" where
  "player_of e u q =
     (case enqueued_song e u q of None \<Rightarrow> None | Some x \<Rightarrow> from_url e (song_url x))"

subsection \<open>Two enqueues that overlap\<close>

text \<open>
  Two \<open>play\<close> commands of one guild, with no skip and no stop. The first appends its
  song, finds nothing playing, pops the song in \<open>play_next_song\<close> and waits for the
  resolver. While it waits, the second does the same with its own song. Then the
  resolver answers the first, and then the second; each handler goes on to the end.
  \<open>None\<close> when a handler does not get as far as the resolver.
\<close>

definition overlapping_plays ::
  "env \<Rightarrow> guild \<Rightarrow> string \<Rightarrow> channel \<Rightarrow> string \<Rightarrow> string \<Rightarrow> world \<Rightarrow> world option" where
  "overlapping_plays e g u ch qa qb s =
     (case play_enqueue e g u ch qa s of
        Inl a \<Rightarrow> None
      | Inr (ta, a1) \<Rightarrow>
          if is_playing g a1 then None
          else
            (case play_next_song_pop g a1 of
               None \<Rightarrow> None
             | Some (xa, a2) \<Rightarrow>
                 (case play_enqueue e g u ch qb a2 of
                    Inl b \<Rightarrow> None
                  | Inr (tb, b1) \<Rightarrow>
                      if is_playing g b1 then None
                      else
                        (case play_next_song_pop g b1 of
                           None \<Rightarrow> None
                         | Some (xb, b2) \<Rightarrow>
                             Some (emit (EditResponse (NowPlaying tb))
                                     (play_next_song_resume e g xb
                                        (emit (EditResponse (NowPlaying ta))
                                           (play_next_song_resume e g xa b2))))))))"

subsection \<open>A concrete resolver and concrete states\<close>

text \<open>
  The searches A, B and C resolve, and so do the pages they lead to; the search X
  resolves, the page it leads to does not. The stack never runs out.
\<close>

definition info_of :: "string \<Rightarrow> info" where
  "info_of n =
     \<lparr>info_title = Present (Some n), info_duration = Present (Some 100),
      info_webpage_url = Present (Some (''https://yt/'' @ n)),
      info_url = Present (Some (''https://cdn/'' @ n))\<rparr>"

definition ex_extract :: "string option \<Rightarrow> ytdata option" where
  "ex_extract u =
     (case u of
        None \<Rightarrow> None
      | Some v \<Rightarrow>
          map_of
            [(''ytsearch:A'', Entries [info_of ''A'']), (''https://yt/A'', Single (info_of ''A'')),
             (''ytsearch:B'', Entries [info_of ''B'']), (''https://yt/B'', Single (info_of ''B'')),
             (''ytsearch:C'', Entries [info_of ''C'']), (''https://yt/C'', Single (info_of ''C'')),
             (''ytsearch:X'', Entries [info_of ''X''])] v)"

definition ex_env :: env where
  "ex_env =
     \<lparr>extract_info = ex_extract,
      ffmpeg_starts = (\<lambda>f. f \<noteq> None),
      opus_is_loaded = True,
      can_connect = (\<lambda>c. True),
      stack_overflow = (\<lambda>d. None)\<rparr>"

text \<open>
  The same resolver under CPython's default recursion limit: the activation that a
  thousand activations enclose, and every deeper one, runs out of stack when it calls
  \<open>voice_client.play\<close>.
\<close>

definition ex_env_deep :: env where
  "ex_env_deep = ex_env\<lparr>stack_overflow := (\<lambda>d. if 1000 \<le> d then Some AtPlay else None)\<rparr>"

definition ex_song :: "string \<Rightarrow> song" where
  "ex_song n =
     \<lparr>song_url = Some (''https://yt/'' @ n), song_title = Some n, song_duration = Some 100,
      song_requester = ''u''\<rparr>"

definition ex_player :: "string \<Rightarrow> player" where
  "ex_player n =
     \<lparr>player_title = Some n, player_url = Some (''https://cdn/'' @ n), player_volume = 1 / 2\<rparr>"

definition world0 :: world where
  "world0 = \<lparr>music_queues = Map.empty, voice = Map.empty, trace = []\<rparr>"

text \<open>Guild 1 with A playing in channel 7, and B (then B and C) pending.\<close>

definition world_A :: world where
  "world_A =
     \<lparr>music_queues = [1 \<mapsto> []],
      voice = [1 \<mapsto> \<lparr>vc_channel = 7, vc_playing = True, vc_source = Some (ex_player ''A'')\<rparr>],
      trace = [SendMessage (Searching ''A''), ExtractInfo (Some ''ytsearch:A''), Connect 1 7,
               ExtractInfo (Some ''https://yt/A''), VcPlay 1 (ex_player ''A''),
               EditResponse (NowPlaying (Some ''A''))]\<rparr>"

definition world_AB :: world where
  "world_AB =
     world_A\<lparr>music_queues := [1 \<mapsto> [ex_song ''B'']],
             trace := trace world_A @
               [SendMessage (Searching ''B''), ExtractInfo (Some ''ytsearch:B''),
                EditResponse (AddedToQueue (Some ''B''))]\<rparr>"

definition world_ABC :: world where
  "world_ABC =
     world_AB\<lparr>music_queues := [1 \<mapsto> [ex_song ''B'', ex_song ''C'']],
              trace := trace world_AB @
                [SendMessage (Searching ''C''), ExtractInfo (Some ''ytsearch:C''),
                 EditResponse (AddedToQueue (Some ''C''))]\<rparr>"

text \<open>Guild 1 connected and silent, with X, B and C pending.\<close>

definition world_XB :: world where
  "world_XB =
     \<lparr>music_queues = [1 \<mapsto> [ex_song ''X'', ex_song ''B'', ex_song ''C'']],
      voice = [1 \<mapsto> \<lparr>vc_channel = 7, vc_playing = False, vc_source = None\<rparr>],
      trace = []\<rparr>"

text \<open>
  Guild 1 connected and silent, with a thousand requests pending whose pages do not
  resolve, and B after them.
\<close>

definition world_deep :: world where
  "world_deep =
     \<lparr>music_queues = [1 \<mapsto> replicate 1000 (ex_song ''X'') @ [ex_song ''B'']],
      voice = [1 \<mapsto> \<lparr>vc_channel = 7, vc_playing = False, vc_source = None\<rparr>],
      trace = []\<rparr>"


section \<open>Basic facts\<close>

lemma emit_simps [simp]:
  "music_queues (emit x s) = music_queues s"
  "voice (emit x s) = voice s"
  "trace (emit x s) = trace s @ [x]"
  by (simp_all add: emit_def)

lemma pending_emit [simp]: "pending g (emit x s) = pending g s"
  by (simp add: pending_def)

lemma current_emit [simp]: "current g (emit x s) = current g s"
  by (simp add: current_def)

lemma is_playing_emit [simp]: "is_playing g (emit x s) = is_playing g s"
  by (simp add: is_playing_def)

lemma started_emit [simp]: "started g (emit x s) = started g s @ started_of g x"
  by (simp add: started_def)

lemma init_queue_simps [simp]:
  "pending g' (init_queue g s) = pending g' s"
  "started g' (init_queue g s) = started g' s"
  "is_playing g' (init_queue g s) = is_playing g' s"
  "voice (init_queue g s) = voice s"
  "trace (init_queue g s) = trace s"
  by (auto simp: pending_def started_def is_playing_def init_queue_def split: option.splits)

lemma append_song_simps [simp]:
  "pending g' (append_song g x s) = (if g' = g then pending g s @ [x] else pending g' s)"
  "voice (append_song g x s) = voice s"
  "trace (append_song g x s) = trace s"
  "started g' (append_song g x s) = started g' s"
  "is_playing g' (append_song g x s) = is_playing g' s"
  by (simp_all add: append_song_def pending_def started_def is_playing_def)

lemma voice_upd_simps [simp]:
  "pending g (s\<lparr>voice := v\<rparr>) = pending g s"
  "started g (s\<lparr>voice := v\<rparr>) = started g s"
  "is_playing g (s\<lparr>voice := v\<rparr>) = (case v g of None \<Rightarrow> False | Some vc \<Rightarrow> vc_playing vc)"
  by (simp_all add: pending_def started_def is_playing_def)

lemma stream_ended_simps [simp]:
  "pending g' (stream_ended g s) = pending g' s"
  "started g' (stream_ended g s) = started g' s"
  "music_queues (stream_ended g s) = music_queues s"
  "trace (stream_ended g s) = trace s"
  "\<not> is_playing g (stream_ended g s)"
  "(voice (stream_ended g s) g = None) = (voice s g = None)"
  by (simp_all add: stream_ended_def pending_def started_def is_playing_def split: option.splits)

section \<open>How play_next_song unfolds\<close>

lemma overflow_at_0 [simp]: "overflow_at e 0 = None"
  by (simp add: overflow_at_def)

lemma play_next_song_from_idle:
  "overflow_at e d = Some AtEntry \<or> pending g s = [] \<or> voice s g = None \<Longrightarrow>
   play_next_song_from e d g s = s"
  by (subst play_next_song_from.simps) (auto simp: pending_def split: option.splits list.splits)

lemma play_next_song_from_fail:
  assumes "overflow_at e d \<noteq> Some AtEntry"
    and "voice s g = Some vc" "music_queues s g = Some (x # rest)"
    and "overflow_at e d = Some AtResolve \<or> from_url e (song_url x) = None"
  shows "play_next_song_from e d g s =
           play_next_song_from e (Suc d) g (emit (ExtractInfo (song_url x))
              (s\<lparr>music_queues := (music_queues s)(g \<mapsto> rest)\<rparr>))"
proof (cases "rest = []")
  case True
  have "pending g (emit (ExtractInfo (song_url x))
          (s\<lparr>music_queues := (music_queues s)(g \<mapsto> rest)\<rparr>)) = []"
    using True by (simp add: pending_def)
  then show ?thesis
    using assms True
    by (subst play_next_song_from.simps) (auto simp: play_next_song_from_idle)
next
  case False
  then show ?thesis using assms by (subst play_next_song_from.simps) auto
qed

lemma play_next_song_from_resolved:
  assumes "overflow_at e d \<noteq> Some AtEntry" "overflow_at e d \<noteq> Some AtResolve"
    and "voice s g = Some vc" "music_queues s g = Some (x # rest)"
    and "from_url e (song_url x) = Some p"
  shows "play_next_song_from e d g s =
           (if \<not> opus_is_loaded e \<or> overflow_at e d = Some AtPlay
            then emit (ExtractInfo (song_url x))
                   (s\<lparr>music_queues := (music_queues s)(g \<mapsto> rest)\<rparr>)
            else vc_play g p (emit (ExtractInfo (song_url x))
                   (s\<lparr>music_queues := (music_queues s)(g \<mapsto> rest)\<rparr>)))"
  using assms by (subst play_next_song_from.simps) simp

text \<open>
  Induction along the recursion of \<open>play_next_song\<close>: the activation returns at once,
  or the head fails and the call goes on with the tail one activation deeper, or the
  head resolves.
\<close>

lemma play_next_song_from_induct [case_names idle fail resolved]:
  assumes idle: "\<And>d s. overflow_at e d = Some AtEntry \<or> pending g s = [] \<or> voice s g = None
        \<Longrightarrow> P d s"
    and fail: "\<And>d s vc x rest.
        overflow_at e d \<noteq> Some AtEntry \<Longrightarrow>
        voice s g = Some vc \<Longrightarrow> music_queues s g = Some (x # rest) \<Longrightarrow>
        overflow_at e d = Some AtResolve \<or> from_url e (song_url x) = None \<Longrightarrow>
        P (Suc d) (emit (ExtractInfo (song_url x))
                    (s\<lparr>music_queues := (music_queues s)(g \<mapsto> rest)\<rparr>)) \<Longrightarrow>
        P d s"
    and resolved: "\<And>d s vc x rest p.
        overflow_at e d \<noteq> Some AtEntry \<Longrightarrow> overflow_at e d \<noteq> Some AtResolve \<Longrightarrow>
        voice s g = Some vc \<Longrightarrow> music_queues s g = Some (x # rest) \<Longrightarrow>
        from_url e (song_url x) = Some p \<Longrightarrow> P d s"
  shows "P d s"
proof (induction "length (pending g s)" arbitrary: d s rule: less_induct)
  case less
  show ?case
  proof (cases "overflow_at e d = Some AtEntry \<or> pending g s = [] \<or> voice s g = None")
    case True
    then show ?thesis by (rule idle)
  next
    case False
    then obtain vc x rest where vc: "voice s g = Some vc"
      and q: "music_queues s g = Some (x # rest)"
      by (auto simp: pending_def neq_Nil_conv split: option.splits)
    from False have ne: "overflow_at e d \<noteq> Some AtEntry" by simp
    let ?s' = "emit (ExtractInfo (song_url x)) (s\<lparr>music_queues := (music_queues s)(g \<mapsto> rest)\<rparr>)"
    have sm: "length (pending g ?s') < length (pending g s)"
      using q by (simp add: pending_def)
    show ?thesis
    proof (cases "overflow_at e d = Some AtResolve \<or> from_url e (song_url x) = None")
      case True
      have "P (Suc d) ?s'" using sm by (rule less)
      with ne vc q True show ?thesis by (rule fail)
    next
      case False
      then obtain p where "from_url e (song_url x) = Some p" by auto
      with ne False vc q show ?thesis by (intro resolved) auto
    qed
  qed
qed

lemma play_next_song_from_prefix:
  "prefix (trace s) (trace (play_next_song_from e d g s))"
proof (induction d s rule: play_next_song_from_induct [of e g])
  case (idle d s)
  then show ?case by (simp add: play_next_song_from_idle)
next
  case (fail d s vc x rest)
  then show ?case by (auto simp: play_next_song_from_fail dest: append_prefixD)
next
  case (resolved d s vc x rest p)
  then show ?case by (simp add: play_next_song_from_resolved vc_play_def)
qed

lemma play_next_song_from_attempts:
  "attempts (play_next_song_from e d g s) \<le> attempts s + length (pending g s)"
proof (induction d s rule: play_next_song_from_induct [of e g])
  case (idle d s)
  then show ?case by (simp add: play_next_song_from_idle)
next
  case (fail d s vc x rest)
  then show ?case by (simp add: play_next_song_from_fail attempts_def pending_def)
next
  case (resolved d s vc x rest p)
  then show ?case
    by (simp add: play_next_song_from_resolved vc_play_def attempts_def pending_def)
qed

lemma play_next_song_from_while_playing:
  "is_playing g s \<Longrightarrow> voice (play_next_song_from e d g s) = voice s"
proof (induction d s rule: play_next_song_from_induct [of e g])
  case (idle d s)
  then show ?case by (simp add: play_next_song_from_idle)
next
  case (fail d s vc x rest)
  then show ?case by (simp add: play_next_song_from_fail is_playing_def)
next
  case (resolved d s vc x rest p)
  then show ?case by (simp add: play_next_song_from_resolved vc_play_def is_playing_def)
qed

lemma play_next_song_from_shrinks:
  "length (pending g (play_next_song_from e d g s)) \<le> length (pending g s)"
proof (induction d s rule: play_next_song_from_induct [of e g])
  case (idle d s)
  then show ?case by (simp add: play_next_song_from_idle)
next
  case (fail d s vc x rest)
  then show ?case by (simp add: play_next_song_from_fail pending_def)
next
  case (resolved d s vc x rest p)
  then show ?case by (simp add: play_next_song_from_resolved vc_play_def pending_def)
qed

lemma from_url_volume: "from_url e u = Some p \<Longrightarrow> player_volume p = 1 / 2"
  by (auto simp: from_url_def split: option.splits entry.splits if_splits)

lemma current_idle: "\<not> is_playing g s \<Longrightarrow> current g s = None"
  by (simp add: is_playing_def current_def split: option.splits)

lemma play_next_song_from_volume:
  "\<not> is_playing g s \<Longrightarrow> current g (play_next_song_from e d g s) = Some p \<Longrightarrow>
   player_volume p = 1 / 2"
proof (induction d s rule: play_next_song_from_induct [of e g])
  case (idle d s)
  then show ?case by (simp add: play_next_song_from_idle current_idle)
next
  case (fail d s vc x rest)
  then show ?case by (simp add: play_next_song_from_fail is_playing_def)
next
  case (resolved d s vc x rest p')
  then show ?case
    by (auto simp: play_next_song_from_resolved vc_play_def is_playing_def current_def
          dest: from_url_volume split: if_splits)
qed

section \<open>The first activation\<close>

lemma play_next_song_empty: "pending g s = [] \<Longrightarrow> play_next_song e g s = s"
  by (simp add: play_next_song_def play_next_song_from_idle)

lemma play_next_song_no_voice: "voice s g = None \<Longrightarrow> play_next_song e g s = s"
  by (simp add: play_next_song_def play_next_song_from_idle)

lemma play_next_song_idle:
  "pending g s = [] \<or> voice s g = None \<Longrightarrow> play_next_song e g s = s"
  using play_next_song_empty play_next_song_no_voice by blast

lemma play_next_song_fail:
  assumes "voice s g = Some vc" "music_queues s g = Some (x # rest)"
    and "from_url e (song_url x) = None"
  shows "play_next_song e g s =
           play_next_song_from e (Suc 0) g (emit (ExtractInfo (song_url x))
              (s\<lparr>music_queues := (music_queues s)(g \<mapsto> rest)\<rparr>))"
  using assms by (simp add: play_next_song_def play_next_song_from_fail)

lemma play_next_song_resolved:
  assumes "voice s g = Some vc" "music_queues s g = Some (x # rest)"
    and "from_url e (song_url x) = Some p"
  shows "play_next_song e g s =
           (if opus_is_loaded e
            then vc_play g p (emit (ExtractInfo (song_url x))
                   (s\<lparr>music_queues := (music_queues s)(g \<mapsto> rest)\<rparr>))
            else emit (ExtractInfo (song_url x))
                   (s\<lparr>music_queues := (music_queues s)(g \<mapsto> rest)\<rparr>))"
  using assms by (simp add: play_next_song_def play_next_song_from_resolved)

lemma play_next_song_start:
  assumes "voice s g = Some vc" "\<not> vc_playing vc" "music_queues s g = Some (x # rest)"
    and "from_url e (song_url x) = Some p" "opus_is_loaded e"
  shows "play_next_song e g s =
           s\<lparr>music_queues := (music_queues s)(g \<mapsto> rest),
             voice := (voice s)(g \<mapsto> vc\<lparr>vc_playing := True, vc_source := Some p\<rparr>),
             trace := trace s @ [ExtractInfo (song_url x), VcPlay g p]\<rparr>"
  using assms by (simp add: play_next_song_resolved vc_play_def emit_def)

lemma play_next_song_prefix: "prefix (trace s) (trace (play_next_song e g s))"
  by (simp add: play_next_song_def play_next_song_from_prefix)

lemma play_next_song_attempts:
  "attempts (play_next_song e g s) \<le> attempts s + length (pending g s)"
  by (simp add: play_next_song_def play_next_song_from_attempts)

lemma play_next_song_while_playing:
  "is_playing g s \<Longrightarrow> voice (play_next_song e g s) = voice s"
  by (simp add: play_next_song_def play_next_song_from_while_playing)

lemma play_next_song_volume:
  "\<not> is_playing g s \<Longrightarrow> current g (play_next_song e g s) = Some p \<Longrightarrow> player_volume p = 1 / 2"
  unfolding play_next_song_def by (rule play_next_song_from_volume)

lemma play_next_song_pops:
  assumes "voice s g \<noteq> None" "pending g s \<noteq> []"
  shows "length (pending g (play_next_song e g s)) < length (pending g s)"
proof -
  from assms obtain vc x rest where vc: "voice s g = Some vc"
    and q: "music_queues s g = Some (x # rest)"
    by (auto simp: pending_def neq_Nil_conv split: option.splits)
  let ?s' = "emit (ExtractInfo (song_url x)) (s\<lparr>music_queues := (music_queues s)(g \<mapsto> rest)\<rparr>)"
  have len: "length (pending g ?s') < length (pending g s)"
    using q by (simp add: pending_def)
  show ?thesis
  proof (cases "from_url e (song_url x)")
    case None
    have "length (pending g (play_next_song_from e (Suc 0) g ?s')) \<le> length (pending g ?s')"
      by (rule play_next_song_from_shrinks)
    then show ?thesis
      using len by (simp add: play_next_song_fail [OF vc q None])
  next
    case (Some p)
    show ?thesis
      using vc q by (simp add: play_next_song_resolved [OF vc q Some] vc_play_def pending_def)
  qed
qed

lemma play_next_song_starts:
  assumes "voice s g \<noteq> None" "\<not> is_playing g s" "pending g s = x # rest"
    and "from_url e (song_url x) = Some p" "opus_is_loaded e"
  shows "pending g (play_next_song e g s) = rest"
    and "started g (play_next_song e g s) = started g s @ [p]"
    and "is_playing g (play_next_song e g s)"
    and "current g (play_next_song e g s) = Some p"
proof -
  from assms obtain vc where vc: "voice s g = Some vc" "\<not> vc_playing vc"
    by (auto simp: is_playing_def)
  from assms have q: "music_queues s g = Some (x # rest)"
    by (auto simp: pending_def split: option.splits)
  note eq = play_next_song_start [OF vc q assms(4,5)]
  show "pending g (play_next_song e g s) = rest"
    and "started g (play_next_song e g s) = started g s @ [p]"
    and "is_playing g (play_next_song e g s)"
    and "current g (play_next_song e g s) = Some p"
    by (simp_all add: eq pending_def started_def is_playing_def current_def)
qed

section \<open>The handlers in parts\<close>

text \<open>Run without anything in between, the parts are the handler.\<close>

lemma play_next_song_by_parts:
  "play_next_song e g s =
     (case play_next_song_pop g s of
        None \<Rightarrow> s
      | Some (x, s') \<Rightarrow> play_next_song_resume e g x s')"
proof (cases "pending g s = [] \<or> voice s g = None")
  case True
  then have "play_next_song_pop g s = None"
    by (auto simp: play_next_song_pop_def pending_def split: option.splits list.splits)
  with True show ?thesis by (simp add: play_next_song_idle)
next
  case False
  then obtain vc x rest where vc: "voice s g = Some vc"
    and q: "music_queues s g = Some (x # rest)"
    by (auto simp: pending_def neq_Nil_conv split: option.splits)
  let ?s' = "emit (ExtractInfo (song_url x)) (s\<lparr>music_queues := (music_queues s)(g \<mapsto> rest)\<rparr>)"
  have pop: "play_next_song_pop g s = Some (x, ?s')"
    using vc q by (simp add: play_next_song_pop_def)
  have pend: "pending g ?s' = rest" by (simp add: pending_def)
  show ?thesis
  proof (cases "from_url e (song_url x)")
    case None
    have "play_next_song_from e (Suc 0) g ?s' = ?s'" if "rest = []"
      using that pend by (intro play_next_song_from_idle) simp
    then show ?thesis
      using pend
      by (auto simp: pop play_next_song_fail [OF vc q None] play_next_song_resume_def None)
  next
    case (Some p)
    show ?thesis
      by (simp add: pop play_next_song_resolved [OF vc q Some] play_next_song_resume_def Some)
  qed
qed

lemma play_by_parts:
  "play e g u (Some ch) q s =
     (case play_enqueue e g u ch q s of
        Inl s' \<Rightarrow> s'
      | Inr (t, s') \<Rightarrow> start_or_queue e g t s')"
  by (simp add: play_def play_enqueue_def Let_def split: option.splits)

section \<open>The trace only grows\<close>

lemma start_or_queue_prefix:
  "prefix xs (trace s) \<Longrightarrow> prefix xs (trace (start_or_queue e g t s))"
  using play_next_song_prefix [of s e g]
  by (auto simp: start_or_queue_def split: option.splits intro: prefix_order.trans)

lemma play_prefix:
  "prefix (trace s @ [SendMessage (Searching q), ExtractInfo (Some (search_query q))])
     (trace (play e g u (Some ch) q s))"
  by (auto simp: play_def Let_def split: option.splits intro!: start_or_queue_prefix)

section \<open>Runs keep the order of the requests\<close>

lemma start_or_queue_playing:
  "is_playing g s \<Longrightarrow> start_or_queue e g t s = emit (EditResponse (AddedToQueue t)) s"
  by (auto simp: start_or_queue_def is_playing_def split: option.splits)

lemma start_or_queue_idle:
  "voice s g \<noteq> None \<Longrightarrow> \<not> is_playing g s \<Longrightarrow>
   start_or_queue e g t s = emit (EditResponse (NowPlaying t)) (play_next_song e g s)"
  by (auto simp: start_or_queue_def is_playing_def split: option.splits)

text \<open>The state in which \<open>play\<close> reaches the voice client, when the query resolved to \<open>x\<close>.\<close>

lemma play_resolved:
  assumes "enqueued_song e u q = Some x"
  shows "play e g u (Some ch) q s =
    (let s2 = append_song g x (emit (ExtractInfo (Some (search_query q)))
                (emit (SendMessage (Searching q)) (init_queue g s)))
     in case voice s2 g of
          None \<Rightarrow>
            if can_connect e ch
            then start_or_queue e g (song_title x)
                   (emit (Connect g ch)
                      (s2\<lparr>voice := (voice s2)(g \<mapsto>
                             \<lparr>vc_channel = ch, vc_playing = False, vc_source = None\<rparr>)\<rparr>))
            else emit (EditResponse (CannotProcess q)) s2
        | Some vc \<Rightarrow>
            if vc_channel vc \<noteq> ch
            then start_or_queue e g (song_title x)
                   (emit (MoveTo g ch) (s2\<lparr>voice := (voice s2)(g \<mapsto> vc\<lparr>vc_channel := ch\<rparr>)\<rparr>))
            else start_or_queue e g (song_title x) s2)"
  using assms
  by (auto simp: play_def Let_def enqueued_song_def split: option.splits)

lemma enqueue_while_playing:
  assumes "is_playing g s" "enqueued_song e u q = Some x"
  shows "pending g (play e g u (Some ch) q s) = pending g s @ [x]"
    and "started g (play e g u (Some ch) q s) = started g s"
    and "is_playing g (play e g u (Some ch) q s)"
proof -
  from assms(1) obtain vc where vc: "voice s g = Some vc" "vc_playing vc"
    by (auto simp: is_playing_def split: option.splits)
  show "pending g (play e g u (Some ch) q s) = pending g s @ [x]"
    and "started g (play e g u (Some ch) q s) = started g s"
    and "is_playing g (play e g u (Some ch) q s)"
    using vc assms(1)
    by (simp_all add: play_resolved [OF assms(2)] Let_def start_or_queue_playing)
qed

lemma enqueue_while_idle:
  assumes "\<not> is_playing g s" "pending g s = []" "enqueued_song e u q = Some x"
    and "from_url e (song_url x) = Some p" "opus_is_loaded e" "can_connect e ch"
  shows "pending g (play e g u (Some ch) q s) = []"
    and "started g (play e g u (Some ch) q s) = started g s @ [p]"
    and "is_playing g (play e g u (Some ch) q s)"
proof -
  let ?s2 = "append_song g x (emit (ExtractInfo (Some (search_query q)))
                (emit (SendMessage (Searching q)) (init_queue g s)))"
  define s3 where "s3 =
    (case voice ?s2 g of
       None \<Rightarrow> emit (Connect g ch)
                 (?s2\<lparr>voice := (voice ?s2)(g \<mapsto>
                        \<lparr>vc_channel = ch, vc_playing = False, vc_source = None\<rparr>)\<rparr>)
     | Some vc \<Rightarrow>
         if vc_channel vc \<noteq> ch
         then emit (MoveTo g ch) (?s2\<lparr>voice := (voice ?s2)(g \<mapsto> vc\<lparr>vc_channel := ch\<rparr>)\<rparr>)
         else ?s2)"
  have play_eq: "play e g u (Some ch) q s = start_or_queue e g (song_title x) s3"
    using assms(6)
    by (simp add: play_resolved [OF assms(3)] Let_def s3_def split: option.splits)
  have s3: "voice s3 g \<noteq> None" "\<not> is_playing g s3" "pending g s3 = [x]"
    "started g s3 = started g s"
    using assms(1,2)
    by (auto simp: s3_def is_playing_def split: option.splits)
  have eq: "play e g u (Some ch) q s =
      emit (EditResponse (NowPlaying (song_title x))) (play_next_song e g s3)"
    using s3 by (simp add: play_eq start_or_queue_idle)
  note st = play_next_song_starts [OF s3(1,2,3) assms(4,5)]
  show "pending g (play e g u (Some ch) q s) = []"
    and "started g (play e g u (Some ch) q s) = started g s @ [p]"
    and "is_playing g (play e g u (Some ch) q s)"
    using st s3(4) by (simp_all add: eq)
qed

lemma finish_next:
  assumes "is_playing g s" "pending g s = x # rest"
    and "from_url e (song_url x) = Some p" "opus_is_loaded e"
  shows "pending g (natural_finish e g s) = rest"
    and "started g (natural_finish e g s) = started g s @ [p]"
    and "is_playing g (natural_finish e g s)"
proof -
  have v: "voice (stream_ended g s) g \<noteq> None"
    using assms(1) by (auto simp: is_playing_def split: option.splits)
  have q: "pending g (stream_ended g s) = x # rest"
    using assms(2) by simp
  note st = play_next_song_starts [OF v stream_ended_simps(5) q assms(3,4)]
  show "pending g (natural_finish e g s) = rest"
    and "started g (natural_finish e g s) = started g s @ [p]"
    and "is_playing g (natural_finish e g s)"
    using st by (simp_all add: natural_finish_def after_playing_def)
qed

lemma finish_last:
  assumes "pending g s = []"
  shows "natural_finish e g s = stream_ended g s"
  using assms by (simp add: natural_finish_def after_playing_def play_next_song_empty)

text \<open>
  The invariant of a run: what has been started, followed by what is pending, is what
  was enqueued, in that order; and requests are pending only while a stream plays.
\<close>

lemma run_fifo:
  assumes "opus_is_loaded e" "can_connect e ch"
    and "\<forall>q\<in>set (queries evs). player_of e u q \<noteq> None"
    and "\<forall>x\<in>set (pending g s). from_url e (song_url x) \<noteq> None"
    and "pending g s \<noteq> [] \<longrightarrow> is_playing g s"
  shows "map Some (started g (run e g u ch evs s))
           @ map (\<lambda>x. from_url e (song_url x)) (pending g (run e g u ch evs s))
         = map Some (started g s) @ map (\<lambda>x. from_url e (song_url x)) (pending g s)
           @ map (player_of e u) (queries evs)
       \<and> (pending g (run e g u ch evs s) \<noteq> [] \<longrightarrow> is_playing g (run e g u ch evs s))"
  using assms(3-)
proof (induction evs arbitrary: s)
  case Nil
  then show ?case by simp
next
  case (Cons ev evs)
  let ?s' = "step e g u ch ev s"
  have rest: "\<forall>q\<in>set (queries evs). player_of e u q \<noteq> None"
    using Cons.prems(1) by (cases ev) simp_all
  have step: "(\<forall>x\<in>set (pending g ?s'). from_url e (song_url x) \<noteq> None)
      \<and> (pending g ?s' \<noteq> [] \<longrightarrow> is_playing g ?s')
      \<and> map Some (started g ?s') @ map (\<lambda>x. from_url e (song_url x)) (pending g ?s')
          = map Some (started g s) @ map (\<lambda>x. from_url e (song_url x)) (pending g s)
            @ map (player_of e u) (queries [ev])"
  proof (cases ev)
    case (Enqueue q)
    then have "player_of e u q \<noteq> None" using Cons.prems(1) by simp
    then obtain x p where x: "enqueued_song e u q = Some x"
      and p: "from_url e (song_url x) = Some p"
      by (auto simp: player_of_def split: option.splits)
    have pq: "player_of e u q = Some p" using x p by (simp add: player_of_def)
    show ?thesis
    proof (cases "is_playing g s")
      case True
      note L = enqueue_while_playing [OF True x, of ch]
      show ?thesis using Cons.prems(2) p pq
        by (simp add: Enqueue step_def L)
    next
      case False
      then have e: "pending g s = []" using Cons.prems(3) by blast
      note L = enqueue_while_idle [OF False e x p assms(1,2)]
      show ?thesis using pq e by (simp add: Enqueue step_def L)
    qed
  next
    case Finished
    show ?thesis
    proof (cases "is_playing g s")
      case False
      then show ?thesis using Cons.prems(2,3) by (simp add: Finished step_def)
    next
      case True
      show ?thesis
      proof (cases "pending g s")
        case Nil
        then show ?thesis using True by (simp add: Finished step_def finish_last)
      next
        case (Cons x rest)
        then obtain p where p: "from_url e (song_url x) = Some p"
          using Cons.prems(2) by auto
        note L = finish_next [OF True Cons p assms(1)]
        show ?thesis using Cons.prems(2) Cons p
          by (simp add: Finished step_def True L)
      qed
    qed
  qed
  have "map Some (started g (run e g u ch evs ?s'))
           @ map (\<lambda>x. from_url e (song_url x)) (pending g (run e g u ch evs ?s'))
         = map Some (started g ?s') @ map (\<lambda>x. from_url e (song_url x)) (pending g ?s')
           @ map (player_of e u) (queries evs)
       \<and> (pending g (run e g u ch evs ?s') \<noteq> [] \<longrightarrow> is_playing g (run e g u ch evs ?s'))"
    using rest step by (intro Cons.IH) blast+
  moreover have "queries (ev # evs) = queries [ev] @ queries evs"
    by (cases ev) simp_all
  ultimately show ?case using step by simp
qed

text \<open>
  So in a run whose handlers do not overlap, where every query resolves, playback order is
  insertion order.
\<close>

lemma sequential_playback_is_fifo:
  assumes "opus_is_loaded e" "can_connect e ch"
    and "\<forall>q\<in>set (queries evs). player_of e u q \<noteq> None"
    and "pending g s = []" "started g s = []"
  shows "map Some (started g (run e g u ch evs s))
           @ map (\<lambda>x. from_url e (song_url x)) (pending g (run e g u ch evs s))
         = map (player_of e u) (queries evs)
       \<and> (pending g (run e g u ch evs s) \<noteq> [] \<longrightarrow> is_playing g (run e g u ch evs s))"
  using run_fifo [OF assms(1,2,3), of g s] assms(4,5) by simp


section \<open>A run of failing requests\<close>

lemma play_next_song_from_skips_bad:
  assumes "voice s g = Some vc" "music_queues s g = Some (bad @ rest)"
    and "\<forall>b\<in>set bad. from_url e (song_url b) = None"
    and "\<forall>k<length bad. overflow_at e (d + k) \<noteq> Some AtEntry"
  shows "play_next_song_from e d g s =
           play_next_song_from e (d + length bad) g
             (s\<lparr>music_queues := (music_queues s)(g \<mapsto> rest),
                trace := trace s @ map (\<lambda>b. ExtractInfo (song_url b)) bad\<rparr>)"
  using assms
proof (induction bad arbitrary: s d)
  case Nil
  then have "(music_queues s)(g \<mapsto> rest) = music_queues s"
    by (simp add: fun_upd_idem)
  then show ?case by simp
next
  case (Cons b bad)
  let ?s' = "emit (ExtractInfo (song_url b)) (s\<lparr>music_queues := (music_queues s)(g \<mapsto> bad @ rest)\<rparr>)"
  have "overflow_at e d \<noteq> Some AtEntry"
    using Cons.prems(4) by force
  then have "play_next_song_from e d g s = play_next_song_from e (Suc d) g ?s'"
    using Cons.prems by (intro play_next_song_from_fail) simp_all
  also have "\<dots> = play_next_song_from e (Suc d + length bad) g
      (?s'\<lparr>music_queues := (music_queues ?s')(g \<mapsto> rest),
           trace := trace ?s' @ map (\<lambda>b. ExtractInfo (song_url b)) bad\<rparr>)"
  proof (intro Cons.IH)
    show "\<forall>k<length bad. overflow_at e (Suc d + k) \<noteq> Some AtEntry"
    proof (intro allI impI)
      fix k assume "k < length bad"
      then have "Suc k < length (b # bad)" by simp
      then have "overflow_at e (d + Suc k) \<noteq> Some AtEntry"
        using Cons.prems(4) by blast
      then show "overflow_at e (Suc d + k) \<noteq> Some AtEntry" by simp
    qed
  qed (use Cons.prems in simp_all)
  also have "(?s'\<lparr>music_queues := (music_queues ?s')(g \<mapsto> rest),
           trace := trace ?s' @ map (\<lambda>b. ExtractInfo (song_url b)) bad\<rparr>) =
      s\<lparr>music_queues := (music_queues s)(g \<mapsto> rest),
        trace := trace s @ map (\<lambda>b. ExtractInfo (song_url b)) (b # bad)\<rparr>"
    by (simp add: emit_def)
  finally show ?case by (simp only: length_Cons add_Suc add_Suc_right)
qed

text \<open>
  While the stack lasts, the failing requests at the head are each tried once and
  dropped, and the first request that resolves is played.
\<close>

lemma skip_over_within_stack:
  assumes "voice s g = Some vc" "\<not> vc_playing vc" "opus_is_loaded e"
    and "music_queues s g = Some (bad @ good # rest)"
    and "\<forall>b\<in>set bad. from_url e (song_url b) = None"
    and "from_url e (song_url good) = Some p"
    and "\<forall>k\<le>length bad. overflow_at e k = None"
  shows "play_next_song e g s =
           s\<lparr>music_queues := (music_queues s)(g \<mapsto> rest),
             voice := (voice s)(g \<mapsto> vc\<lparr>vc_playing := True, vc_source := Some p\<rparr>),
             trace := trace s @ map (\<lambda>b. ExtractInfo (song_url b)) (bad @ [good])
                      @ [VcPlay g p]\<rparr>"
proof -
  let ?s' = "s\<lparr>music_queues := (music_queues s)(g \<mapsto> good # rest),
                trace := trace s @ map (\<lambda>b. ExtractInfo (song_url b)) bad\<rparr>"
  have "play_next_song e g s = play_next_song_from e (0 + length bad) g ?s'"
    unfolding play_next_song_def using assms
    by (intro play_next_song_from_skips_bad) simp_all
  also have "\<dots> = vc_play g p (emit (ExtractInfo (song_url good))
                   (?s'\<lparr>music_queues := (music_queues ?s')(g \<mapsto> rest)\<rparr>))"
    using assms by (subst play_next_song_from_resolved [where p = p and rest = rest]) simp_all
  finally show ?thesis
    using assms by (simp add: vc_play_def emit_def)
qed

text \<open>
  When the stack runs out in the call of \<open>voice_client.play\<close> for the request that
  resolves, that request has been popped and resolved and is not played; the
  activations return and the guild stays silent.
\<close>

lemma deep_failures_drop_the_request:
  assumes "voice s g = Some vc"
    and "music_queues s g = Some (bad @ good # rest)"
    and "\<forall>b\<in>set bad. from_url e (song_url b) = None"
    and "from_url e (song_url good) = Some p"
    and "\<forall>k<length bad. overflow_at e k \<noteq> Some AtEntry"
    and "overflow_at e (length bad) = Some AtPlay"
  shows "play_next_song e g s =
           s\<lparr>music_queues := (music_queues s)(g \<mapsto> rest),
             trace := trace s @ map (\<lambda>b. ExtractInfo (song_url b)) (bad @ [good])\<rparr>"
proof -
  let ?s' = "s\<lparr>music_queues := (music_queues s)(g \<mapsto> good # rest),
                trace := trace s @ map (\<lambda>b. ExtractInfo (song_url b)) bad\<rparr>"
  have "play_next_song e g s = play_next_song_from e (0 + length bad) g ?s'"
    unfolding play_next_song_def using assms
    by (intro play_next_song_from_skips_bad) simp_all
  also have "\<dots> = emit (ExtractInfo (song_url good))
                   (?s'\<lparr>music_queues := (music_queues ?s')(g \<mapsto> rest)\<rparr>)"
    using assms by (subst play_next_song_from_resolved [where p = p and rest = rest]) simp_all
  finally show ?thesis
    by (simp add: emit_def)
qed

lemma attempts_requests [simp]:
  "length (filter is_attempt (map (\<lambda>b. ExtractInfo (f b)) xs)) = length xs"
  by (induction xs) simp_all

lemma started_requests [simp]:
  "concat (map (started_of g) (map (\<lambda>b. ExtractInfo (f b)) xs)) = []"
  by (induction xs) simp_all

section \<open>The concrete resolver\<close>

text \<open>A key that is present with the value \<open>None\<close> is not replaced by the default.\<close>

lemma song_of_present_none:
  "song_url (song_of (d\<lparr>info_webpage_url := Present None\<rparr>) q u) = None"
  "song_title (song_of (d\<lparr>info_title := Present None\<rparr>) q u) = None"
  "song_title (song_of (d\<lparr>info_title := Absent\<rparr>) q u) = Some ''Unknown''"
  by (simp_all add: song_of_def dict_get_def)

lemma ex_player_of:
  "player_of ex_env ''u'' ''A'' = Some (ex_player ''A'')"
  "player_of ex_env ''u'' ''B'' = Some (ex_player ''B'')"
  "player_of ex_env ''u'' ''C'' = Some (ex_player ''C'')"
  by (simp_all add: player_of_def enqueued_song_def ex_env_def ex_extract_def dict_get_def search_query_def starts_with_def
        song_of_def info_of_def from_url_def ex_player_def)

lemma ex_run_ABC:
  "pending 1 (run ex_env 1 ''u'' 7
      [Enqueue ''A'', Enqueue ''B'', Enqueue ''C'', Finished, Finished] world0) = []"
  by (simp add: step_def play_def world0_def ex_env_def ex_extract_def dict_get_def search_query_def starts_with_def
   init_queue_def emit_def info_of_def song_of_def append_song_def pending_def start_or_queue_def
   play_next_song_def play_next_song_from.simps from_url_def vc_play_def Let_def is_playing_def natural_finish_def
   stream_ended_def after_playing_def)

text \<open>The concrete states are what the commands produce from the empty world.\<close>

lemma ex_worlds_reached:
  "play ex_env 1 ''u'' (Some 7) ''A'' world0 = world_A"
  "play ex_env 1 ''u'' (Some 7) ''B'' world_A = world_AB"
  "play ex_env 1 ''u'' (Some 7) ''C'' world_AB = world_ABC"
  by (simp_all add: play_def world0_def world_A_def world_AB_def world_ABC_def ex_env_def ex_extract_def dict_get_def
        search_query_def starts_with_def init_queue_def emit_def info_of_def song_of_def
        append_song_def pending_def start_or_queue_def play_next_song_def play_next_song_from.simps from_url_def
        vc_play_def ex_player_def ex_song_def Let_def)

text \<open>
  Enqueued by the commands: X is popped and fails when it is about to play, B is
  enqueued after it and plays.
\<close>

lemma enqueue_bad_then_good:
  "pending 1 (play ex_env 1 ''u'' (Some 7) ''B'' (play ex_env 1 ''u'' (Some 7) ''X'' world0)) = []
   \<and> current 1 (play ex_env 1 ''u'' (Some 7) ''B'' (play ex_env 1 ''u'' (Some 7) ''X'' world0))
       = Some (ex_player ''B'')
   \<and> started 1 (play ex_env 1 ''u'' (Some 7) ''B'' (play ex_env 1 ''u'' (Some 7) ''X'' world0))
       = [ex_player ''B'']"
  by (simp add: play_def world0_def ex_env_def ex_extract_def dict_get_def search_query_def starts_with_def
   init_queue_def emit_def info_of_def song_of_def append_song_def pending_def start_or_queue_def
   play_next_song_def play_next_song_from.simps from_url_def vc_play_def ex_player_def Let_def current_def started_def)

lemma ex_from_url:
  "from_url ex_env (song_url (ex_song ''X'')) = None"
  "from_url ex_env (song_url (ex_song ''B'')) = Some (ex_player ''B'')"
  "from_url ex_env_deep (song_url (ex_song ''X'')) = None"
  "from_url ex_env_deep (song_url (ex_song ''B'')) = Some (ex_player ''B'')"
  by (simp_all add: from_url_def ex_env_deep_def ex_env_def ex_extract_def dict_get_def
        ex_song_def ex_player_def info_of_def)

section \<open>The float of the volume\<close>

lemma norm_shift_100:
  "norm_shift 25 100 = 2" "norm_shift 33 100 = 2" "norm_shift 50 100 = 1"
  "norm_shift 80 100 = 1" "norm_shift 100 100 = 0" "norm_shift 0 100 = 0"
  by (simp_all add: norm_shift.simps)

text \<open>
  The values Python computes: \<open>25 / 100\<close> and \<open>50 / 100\<close> are exact, \<open>33 / 100\<close> and
  \<open>80 / 100\<close> are the doubles next to a third and to four fifths.
\<close>

lemma float_quotient_examples:
  "float_quotient 25 100 = 1 / 4"
  "float_quotient 50 100 = 1 / 2"
  "float_quotient 100 100 = 1"
  "float_quotient 0 100 = 0"
  "float_quotient 33 100 = 5944751508129055 / 18014398509481984"
  "float_quotient 80 100 = 3602879701896397 / 4503599627370496"
  by (simp_all add: float_quotient_def round_half_even_def norm_shift_100 Let_def)

section \<open>stop in parts\<close>


section \<open>The claims\<close>

subsection \<open>C1: when a request is resolved\<close>

text \<open>
  C1, as the code has it. \<open>play\<close> acknowledges the user first and then calls
  \<open>extract_info\<close> on the query itself, before anything is appended; and a song that has
  reached the head of the deque is resolved once more, from its url, when
  \<open>play_next_song\<close> pops it.
\<close>

theorem enqueue_acks_then_resolves:
  "prefix (trace s @ [SendMessage (Searching q), ExtractInfo (Some (search_query q))])
     (trace (play e g u (Some ch) q s))
   \<and> (voice s g \<noteq> None \<and> pending g s = x # rest \<longrightarrow>
        prefix (trace s @ [ExtractInfo (song_url x)]) (trace (play_next_song e g s)))"
proof -
  have "prefix (trace s @ [ExtractInfo (song_url x)]) (trace (play_next_song e g s))"
    if v: "voice s g \<noteq> None" and q: "pending g s = x # rest"
  proof -
    from v obtain vc where vc: "voice s g = Some vc" by auto
    from q have mq: "music_queues s g = Some (x # rest)"
      by (auto simp: pending_def split: option.splits)
    let ?s' = "emit (ExtractInfo (song_url x)) (s\<lparr>music_queues := (music_queues s)(g \<mapsto> rest)\<rparr>)"
    show ?thesis
    proof (cases "from_url e (song_url x)")
      case None
      have "prefix (trace ?s') (trace (play_next_song_from e (Suc 0) g ?s'))"
        by (rule play_next_song_from_prefix)
      then show ?thesis
        using play_next_song_fail [OF vc mq None] by simp
    next
      case (Some p)
      show ?thesis
        using vc by (simp add: play_next_song_resolved [OF vc mq Some] vc_play_def)
    qed
  qed
  then show ?thesis using play_prefix by blast
qed

theorem enqueue_acks_then_resolves_witness:
  "prefix (trace world_A @ [SendMessage (Searching ''B''), ExtractInfo (Some (search_query ''B''))])
     (trace (play ex_env 1 ''u'' (Some 7) ''B'' world_A))
   \<and> voice (stream_ended 1 world_AB) 1 \<noteq> None
   \<and> pending 1 (stream_ended 1 world_AB) = ex_song ''B'' # []
   \<and> prefix (trace (stream_ended 1 world_AB) @ [ExtractInfo (song_url (ex_song ''B''))])
        (trace (play_next_song ex_env 1 (stream_ended 1 world_AB)))"
  using enqueue_acks_then_resolves [of world_A "''B''" ex_env 1 "''u''" 7]
    enqueue_acks_then_resolves [of "stream_ended 1 world_AB" "''B''" ex_env 1 "''u''" 7 "ex_song ''B''" "[]"]
  by (simp add: world_AB_def world_A_def pending_def)

text \<open>
  C1 as stated fails: while A plays, enqueueing B calls the resolver for B although B
  only joins the tail of the deque and A goes on playing.
\<close>

theorem enqueue_resolves_at_enqueue_time:
  "current 1 world_A = Some (ex_player ''A'')
   \<and> trace (play ex_env 1 ''u'' (Some 7) ''B'' world_A) =
       trace world_A @ [SendMessage (Searching ''B''), ExtractInfo (Some ''ytsearch:B''),
                        EditResponse (AddedToQueue (Some ''B''))]
   \<and> pending 1 (play ex_env 1 ''u'' (Some 7) ''B'' world_A) = [ex_song ''B'']
   \<and> current 1 (play ex_env 1 ''u'' (Some 7) ''B'' world_A) = Some (ex_player ''A'')"
  by (simp add: play_def world_A_def ex_env_def ex_extract_def dict_get_def search_query_def starts_with_def
   init_queue_def emit_def info_of_def song_of_def append_song_def pending_def start_or_queue_def
   ex_song_def current_def Let_def)

subsection \<open>C2: the callback of a stream that stop halted\<close>



subsection \<open>C3: a second completion notification\<close>

text \<open>
  C3, as the code has it. There is no generation counter: every call of \<open>after_playing\<close>
  runs \<open>play_next_song\<close>. A call with nothing pending changes nothing. A call while a
  stream is playing leaves every voice client as it is, so no further stream starts,
  but when requests are pending it removes at least one of them from the deque.
\<close>

theorem second_notification:
  "(pending g s = [] \<longrightarrow> after_playing e g err s = s)
   \<and> (is_playing g s \<longrightarrow> voice (after_playing e g err s) = voice s)
   \<and> (is_playing g s \<and> pending g s \<noteq> [] \<longrightarrow>
        length (pending g (after_playing e g err s)) < length (pending g s))"
proof -
  have "voice s g \<noteq> None" if "is_playing g s"
    using that by (auto simp: is_playing_def split: option.splits)
  then show ?thesis
    by (simp add: after_playing_def play_next_song_empty play_next_song_while_playing
          play_next_song_pops)
qed

theorem second_notification_witness:
  "pending 1 world_A = [] \<and> after_playing ex_env 1 None world_A = world_A
   \<and> is_playing 1 world_ABC \<and> pending 1 world_ABC \<noteq> []
   \<and> voice (after_playing ex_env 1 None world_ABC) = voice world_ABC
   \<and> length (pending 1 (after_playing ex_env 1 None world_ABC)) < length (pending 1 world_ABC)"
  using second_notification [of 1 world_A ex_env None]
    second_notification [of 1 world_ABC ex_env None]
  by (simp add: world_ABC_def world_AB_def world_A_def pending_def is_playing_def)

text \<open>
  C3 as stated fails: with A playing and B, C pending, the first notification starts B
  and leaves C pending; a second notification for the same stream pops C, which is never
  played, so it is not a no-op.
\<close>

theorem second_notification_drops_a_request:
  "pending 1 (natural_finish ex_env 1 world_ABC) = [ex_song ''C'']
   \<and> current 1 (natural_finish ex_env 1 world_ABC) = Some (ex_player ''B'')
   \<and> pending 1 (after_playing ex_env 1 None (natural_finish ex_env 1 world_ABC)) = []
   \<and> current 1 (after_playing ex_env 1 None (natural_finish ex_env 1 world_ABC))
       = Some (ex_player ''B'')
   \<and> started 1 (after_playing ex_env 1 None (natural_finish ex_env 1 world_ABC))
       = [ex_player ''A'', ex_player ''B'']
   \<and> after_playing ex_env 1 None (natural_finish ex_env 1 world_ABC)
       \<noteq> natural_finish ex_env 1 world_ABC"
proof -
  have a: "pending 1 (natural_finish ex_env 1 world_ABC) = [ex_song ''C'']
   \<and> current 1 (natural_finish ex_env 1 world_ABC) = Some (ex_player ''B'')
   \<and> pending 1 (after_playing ex_env 1 None (natural_finish ex_env 1 world_ABC)) = []
   \<and> current 1 (after_playing ex_env 1 None (natural_finish ex_env 1 world_ABC))
       = Some (ex_player ''B'')
   \<and> started 1 (after_playing ex_env 1 None (natural_finish ex_env 1 world_ABC))
       = [ex_player ''A'', ex_player ''B'']"
    by (simp add: natural_finish_def stream_ended_def after_playing_def play_next_song_def play_next_song_from.simps
        vc_play_def world_ABC_def world_AB_def world_A_def ex_env_def ex_extract_def dict_get_def from_url_def ex_song_def ex_player_def
        info_of_def current_def started_def emit_def pending_def)
  then have "pending 1 (after_playing ex_env 1 None (natural_finish ex_env 1 world_ABC))
      \<noteq> pending 1 (natural_finish ex_env 1 world_ABC)"
    by simp
  then have "after_playing ex_env 1 None (natural_finish ex_env 1 world_ABC)
       \<noteq> natural_finish ex_env 1 world_ABC"
    by metis
  with a show ?thesis by blast
qed

subsection \<open>C4: a request that fails to resolve\<close>

text \<open>
  C4, at an input where the code does not do what C4 says. Guild 1 is connected and
  silent, a thousand requests that fail to resolve are pending and B, which resolves,
  after them. Every failure calls \<open>play_next_song\<close> again from inside the handler of
  the failure, one activation deeper. With a stack that lasts, B is played. With
  CPython's recursion limit, reached where the activation for B calls
  \<open>voice_client.play\<close>, B has been popped and resolved and is not played: the guild is
  silent, nothing is pending, and 1001 requests went to the resolver.
\<close>

theorem deep_failures_stall:
  "pending 1 world_deep = replicate 1000 (ex_song ''X'') @ [ex_song ''B'']
   \<and> current 1 (play_next_song ex_env 1 world_deep) = Some (ex_player ''B'')
   \<and> current 1 (play_next_song ex_env_deep 1 world_deep) = None
   \<and> started 1 (play_next_song ex_env_deep 1 world_deep) = []
   \<and> pending 1 (play_next_song ex_env_deep 1 world_deep) = []
   \<and> attempts (play_next_song ex_env_deep 1 world_deep) = 1001"
proof -
  let ?vc = "\<lparr>vc_channel = 7, vc_playing = False, vc_source = None\<rparr>"
  let ?bad = "replicate 1000 (ex_song ''X'')"
  have v: "voice world_deep 1 = Some ?vc"
    by (simp add: world_deep_def)
  have q: "music_queues world_deep 1 = Some (?bad @ ex_song ''B'' # [])"
    by (simp add: world_deep_def)
  have len: "length ?bad = 1000" by simp
  have room: "\<forall>k\<le>length ?bad. overflow_at ex_env k = None"
    by (simp add: overflow_at_def ex_env_def)
  have np: "\<not> vc_playing ?vc" by simp
  have opus: "opus_is_loaded ex_env" by (simp add: ex_env_def)
  have good: "play_next_song ex_env 1 world_deep =
      world_deep\<lparr>music_queues := (music_queues world_deep)(1 \<mapsto> []),
        voice := (voice world_deep)(1 \<mapsto> ?vc\<lparr>vc_playing := True,
                                               vc_source := Some (ex_player ''B'')\<rparr>),
        trace := trace world_deep @ map (\<lambda>b. ExtractInfo (song_url b)) (?bad @ [ex_song ''B''])
                 @ [VcPlay 1 (ex_player ''B'')]\<rparr>"
    by (rule skip_over_within_stack [OF v np opus q _ _ room])
       (simp_all add: ex_from_url)
  have entry: "\<forall>k<length ?bad. overflow_at ex_env_deep k \<noteq> Some AtEntry"
    by (simp add: overflow_at_def ex_env_deep_def)
  have play: "overflow_at ex_env_deep (length ?bad) = Some AtPlay"
    unfolding len by (simp add: overflow_at_def ex_env_deep_def)
  have deep: "play_next_song ex_env_deep 1 world_deep =
      world_deep\<lparr>music_queues := (music_queues world_deep)(1 \<mapsto> []),
        trace := trace world_deep
                 @ map (\<lambda>b. ExtractInfo (song_url b)) (?bad @ [ex_song ''B''])\<rparr>"
    by (rule deep_failures_drop_the_request [OF v q _ _ entry play])
       (simp_all add: ex_from_url)
  have "pending 1 world_deep = ?bad @ [ex_song ''B'']"
    using q by (simp add: pending_def)
  moreover have "current 1 (play_next_song ex_env 1 world_deep) = Some (ex_player ''B'')"
    unfolding good by (simp add: current_def)
  moreover have "current 1 (play_next_song ex_env_deep 1 world_deep) = None"
    unfolding deep using v by (simp add: current_def)
  moreover have "started 1 (play_next_song ex_env_deep 1 world_deep) = []"
    unfolding deep by (simp add: started_def world_deep_def)
  moreover have "pending 1 (play_next_song ex_env_deep 1 world_deep) = []"
    unfolding deep by (simp add: pending_def)
  moreover have "attempts (play_next_song ex_env_deep 1 world_deep) = 1001"
    unfolding deep by (simp add: attempts_def world_deep_def)
  ultimately show ?thesis by blast
qed

subsection \<open>C5: first in, first out\<close>

text \<open>
  C5, at an input where the code does not do what C5 says. A user enqueues A and then
  B in guild 1, with no skip and no stop, and the second command arrives while the first
  waits for the resolver in \<open>play_next_song\<close>. Both commands find nothing playing and
  both pop their request. A is played; \<open>voice_client.play\<close> refuses B, whose handler
  still answers that B is now playing. B is not pending and is never played, also not
  when A has run out. In the run where the second command comes after the first has
  ended, A and then B are played.
\<close>

theorem overlapping_enqueues_lose_a_request:
  "map_option (started 1) (overlapping_plays ex_env 1 ''u'' 7 ''A'' ''B'' world0)
     = Some [ex_player ''A'']
   \<and> map_option (current 1) (overlapping_plays ex_env 1 ''u'' 7 ''A'' ''B'' world0)
     = Some (Some (ex_player ''A''))
   \<and> map_option (pending 1) (overlapping_plays ex_env 1 ''u'' 7 ''A'' ''B'' world0) = Some []
   \<and> map_option (\<lambda>w. last (trace w)) (overlapping_plays ex_env 1 ''u'' 7 ''A'' ''B'' world0)
     = Some (EditResponse (NowPlaying (Some ''B'')))
   \<and> map_option (\<lambda>w. started 1 (natural_finish ex_env 1 w))
        (overlapping_plays ex_env 1 ''u'' 7 ''A'' ''B'' world0)
     = Some [ex_player ''A'']
   \<and> started 1 (run ex_env 1 ''u'' 7 [Enqueue ''A'', Enqueue ''B'', Finished] world0)
     = [ex_player ''A'', ex_player ''B'']"
  by (simp add: overlapping_plays_def play_enqueue_def play_next_song_pop_def
        play_next_song_resume_def step_def play_def world0_def ex_env_def ex_extract_def
        dict_get_def search_query_def starts_with_def init_queue_def emit_def info_of_def
        song_of_def append_song_def pending_def start_or_queue_def play_next_song_def
        play_next_song_from.simps from_url_def vc_play_def Let_def is_playing_def
        natural_finish_def stream_ended_def after_playing_def current_def started_def
        ex_player_def)

subsection \<open>C6: stop\<close>

text \<open>
  C6. With a voice client, \<open>stop\<close> leaves the guild with nothing pending and nothing
  playing, and calls \<open>voice_client.stop()\<close> and \<open>disconnect()\<close> once each before it
  answers. Without a voice client it answers that the bot is not connected and changes
  neither the queues nor the voice clients.
\<close>

theorem stop_clears_and_disconnects_once:
  "(voice s g = Some vc \<longrightarrow>
      pending g (stop g s) = [] \<and> current g (stop g s) = None \<and> voice (stop g s) g = None
      \<and> trace (stop g s) = trace s @ [VcStop g, Disconnect g, SendMessage Stopped])
   \<and> (voice s g = None \<longrightarrow>
      music_queues (stop g s) = music_queues s \<and> voice (stop g s) = voice s
      \<and> trace (stop g s) = trace s @ [SendMessage NotConnected])"
  by (auto simp: stop_def vc_stop_def vc_disconnect_def pending_def current_def
           split: option.splits)

theorem stop_clears_and_disconnects_once_witness:
  "voice world_AB 1 = Some \<lparr>vc_channel = 7, vc_playing = True, vc_source = Some (ex_player ''A'')\<rparr>
   \<and> pending 1 world_AB = [ex_song ''B'']
   \<and> pending 1 (stop 1 world_AB) = [] \<and> current 1 (stop 1 world_AB) = None
   \<and> voice (stop 1 world_AB) 1 = None
   \<and> trace (stop 1 world_AB) = trace world_AB @ [VcStop 1, Disconnect 1, SendMessage Stopped]
   \<and> voice world0 1 = None
   \<and> music_queues (stop 1 world0) = music_queues world0 \<and> voice (stop 1 world0) = voice world0
   \<and> trace (stop 1 world0) = trace world0 @ [SendMessage NotConnected]"
  using stop_clears_and_disconnects_once
          [of world_AB 1 "\<lparr>vc_channel = 7, vc_playing = True, vc_source = Some (ex_player ''A'')\<rparr>"]
        stop_clears_and_disconnects_once [of world0 1]
  by (simp add: world_AB_def world_A_def world0_def pending_def)

subsection \<open>C7: the volume\<close>

text \<open>
  C7, as the code has it. A track started by \<open>play_next_song\<close> has volume 0.5, whatever
  was set before. The command \<open>volume\<close> with a value from 0 to 100 sets the volume of
  the source that the voice client has at that moment to the Python float
  \<open>value / 100\<close>, answers with the value, and changes nothing else. Without a voice
  client or without a source it answers that nothing is playing (or that the value is
  out of range) and changes neither the queues nor the voice clients: no default is
  stored anywhere.
\<close>

theorem volume_is_per_source:
  "(\<not> is_playing g s \<and> current g (play_next_song e g s) = Some p \<longrightarrow> player_volume p = 1 / 2)
   \<and> (0 \<le> v \<and> v \<le> 100 \<and> voice s g = Some vc \<and> vc_source vc = Some q \<longrightarrow>
        voice (volume g v s) =
          (voice s)(g \<mapsto> vc\<lparr>vc_source :=
                               Some (q\<lparr>player_volume := float_quotient (nat v) 100\<rparr>)\<rparr>)
        \<and> music_queues (volume g v s) = music_queues s
        \<and> trace (volume g v s) = trace s @ [SendMessage (VolumeSet v)])
   \<and> ((voice s g = None \<or> (\<exists>vc. voice s g = Some vc \<and> vc_source vc = None)) \<longrightarrow>
        music_queues (volume g v s) = music_queues s \<and> voice (volume g v s) = voice s
        \<and> trace (volume g v s) =
            trace s @ [SendMessage (if v < 0 \<or> 100 < v then VolumeRange else NothingPlaying)])"
proof -
  have "player_volume p = 1 / 2"
    if "\<not> is_playing g s" "current g (play_next_song e g s) = Some p"
    using that by (rule play_next_song_volume)
  moreover have "voice (volume g v s) =
          (voice s)(g \<mapsto> vc\<lparr>vc_source :=
                               Some (q\<lparr>player_volume := float_quotient (nat v) 100\<rparr>)\<rparr>)
        \<and> music_queues (volume g v s) = music_queues s
        \<and> trace (volume g v s) = trace s @ [SendMessage (VolumeSet v)]"
    if "0 \<le> v" "v \<le> 100" "voice s g = Some vc" "vc_source vc = Some q"
    using that by (simp add: volume_def)
  moreover have "music_queues (volume g v s) = music_queues s \<and> voice (volume g v s) = voice s
        \<and> trace (volume g v s) =
            trace s @ [SendMessage (if v < 0 \<or> 100 < v then VolumeRange else NothingPlaying)]"
    if "voice s g = None \<or> (\<exists>vc. voice s g = Some vc \<and> vc_source vc = None)"
    using that by (auto simp: volume_def split: option.splits)
  ultimately show ?thesis by blast
qed

theorem volume_is_per_source_witness:
  "\<not> is_playing 1 (stream_ended 1 (volume 1 25 world_AB))
   \<and> current 1 (play_next_song ex_env 1 (stream_ended 1 (volume 1 25 world_AB)))
       = Some (ex_player ''B'')
   \<and> player_volume (ex_player ''B'') = 1 / 2
   \<and> (0::int) \<le> 25 \<and> (25::int) \<le> 100
   \<and> voice world_AB 1
       = Some \<lparr>vc_channel = 7, vc_playing = True, vc_source = Some (ex_player ''A'')\<rparr>
   \<and> voice (volume 1 25 world_AB) 1
       = Some \<lparr>vc_channel = 7, vc_playing = True,
               vc_source = Some ((ex_player ''A'')\<lparr>player_volume := 1 / 4\<rparr>)\<rparr>
   \<and> trace (volume 1 25 world_AB) = trace world_AB @ [SendMessage (VolumeSet 25)]
   \<and> voice world0 1 = None
   \<and> music_queues (volume 1 25 world0) = music_queues world0
   \<and> voice (volume 1 25 world0) = voice world0
   \<and> trace (volume 1 25 world0) = trace world0 @ [SendMessage NothingPlaying]"
proof -
  let ?vc = "\<lparr>vc_channel = 7, vc_playing = True, vc_source = Some (ex_player ''A'')\<rparr>"
  have v: "voice world_AB 1 = Some ?vc"
    by (simp add: world_AB_def world_A_def)
  have src: "vc_source ?vc = Some (ex_player ''A'')" by simp
  have f: "float_quotient 25 100 = 1 / 4"
    by (rule float_quotient_examples)
  have idle: "\<not> is_playing 1 (stream_ended 1 (volume 1 25 world_AB))" by simp
  have cur: "current 1 (play_next_song ex_env 1 (stream_ended 1 (volume 1 25 world_AB)))
       = Some (ex_player ''B'')"
    by (simp add: world_AB_def world_A_def volume_def stream_ended_def play_next_song_def
          play_next_song_from.simps vc_play_def from_url_def ex_env_def ex_extract_def
          dict_get_def ex_song_def ex_player_def info_of_def current_def emit_def)
  have a: "player_volume (ex_player ''B'') = 1 / 2"
    using volume_is_per_source
      [of 1 "stream_ended 1 (volume 1 25 world_AB)" ex_env "ex_player ''B''" 25 ?vc
          "ex_player ''A''"]
      idle cur by blast
  have b: "voice (volume 1 25 world_AB) =
          (voice world_AB)(1 \<mapsto> ?vc\<lparr>vc_source :=
             Some ((ex_player ''A'')\<lparr>player_volume := float_quotient (nat 25) 100\<rparr>)\<rparr>)
        \<and> trace (volume 1 25 world_AB) = trace world_AB @ [SendMessage (VolumeSet 25)]"
    using volume_is_per_source
      [of 1 world_AB ex_env "ex_player ''B''" 25 ?vc "ex_player ''A''"] v src
    by simp
  have w0: "voice world0 1 = None" by (simp add: world0_def)
  have c: "music_queues (volume 1 25 world0) = music_queues world0
      \<and> voice (volume 1 25 world0) = voice world0
      \<and> trace (volume 1 25 world0) = trace world0 @ [SendMessage NothingPlaying]"
    using volume_is_per_source
      [of 1 world0 ex_env "ex_player ''B''" 25 ?vc "ex_player ''A''"] w0
    by simp
  have b': "voice (volume 1 25 world_AB) 1
       = Some \<lparr>vc_channel = 7, vc_playing = True,
               vc_source = Some ((ex_player ''A'')\<lparr>player_volume := 1 / 4\<rparr>)\<rparr>"
    using b by (simp add: f)
  from idle cur a v b b' w0 c show ?thesis by simp
qed

text \<open>
  C7 as stated fails: the volume 25 set while A plays is gone when B starts, and the
  volume 25 given while nothing plays is answered with "nothing is playing" and does not
  reach the track played next.
\<close>

theorem volume_does_not_persist:
  "map_option player_volume (current 1 (volume 1 25 world_AB)) = Some (1 / 4)
   \<and> map_option player_volume (current 1 (natural_finish ex_env 1 (volume 1 25 world_AB)))
       = Some (1 / 2)
   \<and> current 1 world0 = None
   \<and> trace (volume 1 25 world0) = [SendMessage NothingPlaying]
   \<and> map_option player_volume
        (current 1 (play ex_env 1 ''u'' (Some 7) ''A'' (volume 1 25 world0))) = Some (1 / 2)"
proof -
  have f: "float_quotient 25 100 = 1 / 4"
    by (rule float_quotient_examples)
  show ?thesis
    by (simp add: world_AB_def world_A_def world0_def volume_def f natural_finish_def
        after_playing_def stream_ended_def play_next_song_def play_next_song_from.simps
        vc_play_def from_url_def ex_env_def ex_extract_def dict_get_def ex_song_def
        ex_player_def info_of_def current_def emit_def play_def search_query_def
        starts_with_def init_queue_def song_of_def append_song_def pending_def
        start_or_queue_def Let_def)
qed

subsection \<open>C8: leaving a guild\<close>

text \<open>
  C8, as the code has it. \<open>on_guild_remove\<close> removes the entry of the guild from
  \<open>music_queues\<close>, so nothing is pending there; the entries of the other guilds, every
  voice client and the trace stay as they are: the handler neither stops the stream nor
  disconnects.
\<close>

theorem guild_remove_only_drops_entry:
  "music_queues (on_guild_remove g s) g = None
   \<and> pending g (on_guild_remove g s) = []
   \<and> (\<forall>g'. g' \<noteq> g \<longrightarrow> music_queues (on_guild_remove g s) g' = music_queues s g')
   \<and> voice (on_guild_remove g s) = voice s
   \<and> trace (on_guild_remove g s) = trace s"
  by (auto simp: on_guild_remove_def pending_def split: option.splits)

theorem guild_remove_only_drops_entry_witness:
  "music_queues (on_guild_remove 1 world_AB) 1 = None
   \<and> (2::nat) \<noteq> 1 \<and> music_queues (on_guild_remove 1 world_AB) 2 = music_queues world_AB 2
   \<and> voice (on_guild_remove 1 world_AB) = voice world_AB"
  using guild_remove_only_drops_entry [of 1 world_AB]
  by simp

text \<open>
  C8 as stated fails: with A playing and B pending, leaving the guild keeps A playing
  and calls nothing on the voice client, while \<open>stop\<close> followed by the removal ends the
  stream and disconnects.
\<close>

theorem guild_remove_keeps_stream:
  "current 1 world_AB = Some (ex_player ''A'')
   \<and> current 1 (on_guild_remove 1 world_AB) = Some (ex_player ''A'')
   \<and> trace (on_guild_remove 1 world_AB) = trace world_AB
   \<and> current 1 (on_guild_remove 1 (stop 1 world_AB)) = None
   \<and> trace (on_guild_remove 1 (stop 1 world_AB))
       = trace world_AB @ [VcStop 1, Disconnect 1, SendMessage Stopped]"
  by (simp add: on_guild_remove_def stop_def vc_stop_def vc_disconnect_def current_def
        world_AB_def world_A_def)

subsection \<open>C9: invalid commands\<close>

text \<open>
  C9. \<open>skip\<close> while nothing is playing, and \<open>stop\<close> without a voice client, answer the
  caller at once with the error text and change neither the queues nor the voice clients.
\<close>

theorem invalid_command_no_change:
  "(\<not> is_playing g s \<longrightarrow>
      music_queues (skip g s) = music_queues s \<and> voice (skip g s) = voice s
      \<and> trace (skip g s) = trace s @ [SendMessage NothingPlaying])
   \<and> (voice s g = None \<longrightarrow>
      music_queues (stop g s) = music_queues s \<and> voice (stop g s) = voice s
      \<and> trace (stop g s) = trace s @ [SendMessage NotConnected])"
  by (auto simp: skip_def stop_def is_playing_def split: option.splits)

theorem invalid_command_no_change_witness:
  "\<not> is_playing 1 (stream_ended 1 world_AB)
   \<and> music_queues (skip 1 (stream_ended 1 world_AB)) = music_queues (stream_ended 1 world_AB)
   \<and> voice (skip 1 (stream_ended 1 world_AB)) = voice (stream_ended 1 world_AB)
   \<and> trace (skip 1 (stream_ended 1 world_AB))
       = trace (stream_ended 1 world_AB) @ [SendMessage NothingPlaying]
   \<and> voice world0 1 = None
   \<and> music_queues (stop 1 world0) = music_queues world0 \<and> voice (stop 1 world0) = voice world0
   \<and> trace (stop 1 world0) = trace world0 @ [SendMessage NotConnected]"
  using invalid_command_no_change [of 1 "stream_ended 1 world_AB"]
        invalid_command_no_change [of 1 world0]
  by (simp add: world0_def)

subsection \<open>C10: an enqueue whose extraction fails\<close>

text \<open>
  C10. When \<open>extract_info\<close> raises in \<open>play\<close>, or returns a search result without
  entries, nothing is appended: every guild has the same songs pending as before and the
  voice clients are unchanged. The dictionary itself is as before, apart from the empty
  deque that \<open>play\<close> creates for a guild without an entry before it resolves. The user
  gets the acknowledgement, and then the error text.
\<close>

theorem failed_extraction_keeps_queue:
  assumes "extract_info e (Some (search_query query)) = None
         \<or> (\<exists>data. extract_info e (Some (search_query query)) = Some data \<and> first_entry data = None)"
  shows "(\<forall>g'. pending g' (play e g requester (Some ch) query s) = pending g' s)
    \<and> voice (play e g requester (Some ch) query s) = voice s
    \<and> music_queues (play e g requester (Some ch) query s) =
        (if g \<in> dom (music_queues s) then music_queues s else (music_queues s)(g \<mapsto> []))
    \<and> trace (play e g requester (Some ch) query s) =
        trace s @ [SendMessage (Searching query), ExtractInfo (Some (search_query query)),
                   EditResponse (CannotProcess query)]"
proof -
  have eq: "play e g requester (Some ch) query s =
      emit (EditResponse (CannotProcess query))
        (emit (ExtractInfo (Some (search_query query)))
           (emit (SendMessage (Searching query)) (init_queue g s)))"
    using assms by (auto simp: play_def Let_def split: option.splits)
  have "music_queues (init_queue g s) =
      (if g \<in> dom (music_queues s) then music_queues s else (music_queues s)(g \<mapsto> []))"
    by (auto simp: init_queue_def split: option.splits)
  then show ?thesis by (simp add: eq)
qed

theorem failed_extraction_keeps_queue_witness:
  "extract_info ex_env (Some (search_query ''nothing'')) = None
   \<and> pending 1 world_AB = [ex_song ''B'']
   \<and> pending 1 (play ex_env 1 ''u'' (Some 7) ''nothing'' world_AB) = [ex_song ''B'']
   \<and> voice (play ex_env 1 ''u'' (Some 7) ''nothing'' world_AB) = voice world_AB
   \<and> music_queues (play ex_env 2 ''u'' (Some 7) ''nothing'' world_AB) 2 = Some []"
  using failed_extraction_keeps_queue [of ex_env "''nothing''" 1 "''u''" 7 world_AB]
    failed_extraction_keeps_queue [of ex_env "''nothing''" 2 "''u''" 7 world_AB]
  by (simp add: ex_env_def ex_extract_def dict_get_def search_query_def starts_with_def world_AB_def world_A_def pending_def)

end
